theory Spec2Isabelle
  imports Main "HOL-Library.Char_ord" "HOL-Library.List_Lexorder" "HOL-Library.Sublist"
begin

section \<open>Python strings\<close>

text \<open>
  A Python \<open>str\<close> is modelled as a \<^typ>\<open>string\<close>; a \<^typ>\<open>char\<close> stands for a code
  point below 256. Strings are compared as Python compares them: lexicographically by
  code point (a proper prefix is smaller), which is the order of
  \<open>HOL-Library.List_Lexorder\<close> over \<open>HOL-Library.Char_ord\<close>.
\<close>

definition nl :: char where
  "nl = CHR 0x0A"

definition tab :: char where
  "tab = CHR 0x09"

text \<open>\<open>str(n)\<close> for a non-negative \<open>int\<close>.\<close>

definition digit :: "nat \<Rightarrow> char" where
  "digit d = char_of (48 + d)"

function show_nat :: "nat \<Rightarrow> string" where
  "show_nat n = (if n < 10 then [digit n] else show_nat (n div 10) @ [digit (n mod 10)])"
  by pat_completeness auto
termination
  by (relation "measure id") auto

text \<open>How \<open>str.format\<close> prints an attribute that is an \<open>int\<close> or still \<open>None\<close>.\<close>

definition format_int :: "nat option \<Rightarrow> string" where
  "format_int v = (case v of None \<Rightarrow> ''None'' | Some n \<Rightarrow> show_nat n)"

text \<open>
  \<open>s.replace(old, new)\<close> for a non-empty \<open>old\<close>: every occurrence, scanning from the
  left, occurrences not overlapping.
\<close>

function py_replace :: "string \<Rightarrow> string \<Rightarrow> string \<Rightarrow> string" where
  "py_replace old new [] = []"
| "py_replace old new (c # cs) =
     (if prefix old (c # cs) then new @ py_replace old new (drop (length old - 1) cs)
      else c # py_replace old new cs)"
  by pat_completeness auto
termination
  by (relation "measure (\<lambda>(old, new, s). length s)") auto

text \<open>\<open>os.path.basename\<close> (posixpath): what follows the last slash.\<close>

definition basename :: "string \<Rightarrow> string" where
  "basename p = rev (takeWhile (\<lambda>c. c \<noteq> CHR ''/'') (rev p))"

text \<open>\<open>str.isspace\<close> on one code point below 256, and \<open>str.strip()\<close>.\<close>

definition isspace :: "char \<Rightarrow> bool" where
  "isspace c = (of_char c \<in> {9, 10, 11, 12, 13, 28, 29, 30, 31, 32, 133, 160 :: nat})"

definition lstrip :: "string \<Rightarrow> string" where
  "lstrip s = dropWhile isspace s"

definition rstrip :: "string \<Rightarrow> string" where
  "rstrip s = rev (dropWhile isspace (rev s))"

definition strip :: "string \<Rightarrow> string" where
  "strip s = rstrip (lstrip s)"

subsection \<open>\<open>textwrap.dedent\<close>\<close>

text \<open>
  The lines of a text are what stands between its newlines (\<open>text.split('\n')\<close>), so a
  text that ends in a newline has an empty last line.
\<close>

fun cons_first :: "char \<Rightarrow> string list \<Rightarrow> string list" where
  "cons_first c [] = [[c]]"
| "cons_first c (l # ls) = (c # l) # ls"

fun split_lines :: "string \<Rightarrow> string list" where
  "split_lines [] = [[]]"
| "split_lines (c # cs) = (if c = nl then [] # split_lines cs else cons_first c (split_lines cs))"

fun join_lines :: "string list \<Rightarrow> string" where
  "join_lines [] = []"
| "join_lines [l] = l"
| "join_lines (l # ls) = l @ nl # join_lines ls"

definition is_blank :: "char \<Rightarrow> bool" where
  "is_blank c = (c = CHR '' '' \<or> c = tab)"

text \<open>\<open>_whitespace_only_re.sub('', text)\<close>: a line of spaces and tabs only becomes empty.\<close>

definition whitespace_only_sub :: "string \<Rightarrow> string" where
  "whitespace_only_sub l = (if l \<noteq> [] \<and> list_all is_blank l then [] else l)"

text \<open>
  \<open>_leading_whitespace_re.findall(text)\<close>: the leading spaces and tabs of every line that
  has another character after them.
\<close>

definition leading_whitespace :: "string list \<Rightarrow> string list" where
  "leading_whitespace ls = map (takeWhile is_blank) (filter (\<lambda>l. dropWhile is_blank l \<noteq> []) ls)"

fun common_prefix :: "string \<Rightarrow> string \<Rightarrow> string" where
  "common_prefix (x # xs) (y # ys) = (if x = y then x # common_prefix xs ys else [])"
| "common_prefix _ _ = []"

text \<open>One round of the loop over the indents: \<open>margin\<close> is \<open>None\<close> before the first.\<close>

definition margin_step :: "string option \<Rightarrow> string \<Rightarrow> string option" where
  "margin_step margin indent =
     (case margin of
        None \<Rightarrow> Some indent
      | Some mg \<Rightarrow>
          if prefix mg indent then Some mg
          else if prefix indent mg then Some indent
          else Some (common_prefix mg indent))"

definition remove_margin :: "string \<Rightarrow> string \<Rightarrow> string" where
  "remove_margin mg l = (if prefix mg l then drop (length mg) l else l)"

definition dedent :: "string \<Rightarrow> string" where
  "dedent text =
     (let ls = map whitespace_only_sub (split_lines text);
          margin = foldl margin_step None (leading_whitespace ls)
      in case margin of
           None \<Rightarrow> join_lines ls
         | Some mg \<Rightarrow> if mg \<noteq> [] then join_lines (map (remove_margin mg) ls) else join_lines ls)"

text \<open>An indented line of a template, and the indents the templates are written with.\<close>

definition ln :: "string \<Rightarrow> string \<Rightarrow> string" where
  "ln ind s = ind @ s @ [nl]"

definition ind12 :: string where
  "ind12 = replicate 12 (CHR '' '')"

definition ind16 :: string where
  "ind16 = replicate 16 (CHR '' '')"

section \<open>Errors and input\<close>

text \<open>The exceptions the build can raise; each aborts the build.\<close>

datatype error =
    OSError string
  | JSONDecodeError string
  | KeyError string
  | TypeError
  | AttributeError
  | AssertionError
  | FormatError

text \<open>
  What \<open>json.load\<close> returns: an object is a \<open>dict\<close>, its keys in the order of the file;
  every other value is \<open>JOther\<close>.
\<close>

datatype json = JObject "(string \<times> json) list" | JOther

text \<open>\<open>json_data[key]\<close> and \<open>value.keys()\<close>.\<close>

definition subscript :: "json \<Rightarrow> string \<Rightarrow> error + json" where
  "subscript j key =
     (case j of
        JObject kvs \<Rightarrow> (case map_of kvs key of None \<Rightarrow> Inl (KeyError key) | Some v \<Rightarrow> Inr v)
      | JOther \<Rightarrow> Inl TypeError)"

definition keys :: "json \<Rightarrow> error + string list" where
  "keys j = (case j of JObject kvs \<Rightarrow> Inr (map fst kvs) | JOther \<Rightarrow> Inl AttributeError)"

datatype file_content = NoFile | NotJson | Json json

text \<open>
  The world the program runs in: the input files by path; the extra file by path, as the
  text that \<open>data.format(index=n)\<close> gives for each \<open>n\<close> (or the error of reading or
  formatting it); whether \<open>project.godot\<close> exists; and the hash-table slot of a string,
  which CPython derives from the seed it draws when the process starts and which fixes
  the order a \<open>set\<close> of strings is iterated in.
\<close>

record env =
  json_files :: "string \<Rightarrow> file_content"
  extra_files :: "string \<Rightarrow> nat \<Rightarrow> error + string"
  project_godot :: bool
  slot :: "string \<Rightarrow> nat"

text \<open>The command line, as \<open>docopt\<close> returns it.\<close>

record args =
  arg_json :: "string list"
  arg_t :: string
  arg_n :: string
  arg_e :: "string option"
  arg_s :: "string option"

text \<open>Iterating over \<open>set(xs)\<close>: each element once, in slot order.\<close>

definition set_iter :: "(string \<Rightarrow> nat) \<Rightarrow> string list \<Rightarrow> string list" where
  "set_iter sl xs = sort_key sl (remdups xs)"

section \<open>Resources\<close>

record ext_resource =
  resource_path :: string
  resource_type :: string
  er_i :: "nat option"

definition ExtResource :: "string \<Rightarrow> string \<Rightarrow> ext_resource" where
  "ExtResource path type = \<lparr>resource_path = path, resource_type = type, er_i = None\<rparr>"

definition ExtResource_str :: "ext_resource \<Rightarrow> string" where
  \<open>ExtResource_str e =
     dedent
       (ln ind12 (''[ext_resource path="res://'' @ resource_path e @ ''" type="'' @
                  resource_type e @ ''" id='' @ format_int (er_i e) @ '']'') @
        ind12)\<close>

datatype sub_class = SubResourceSpinePlay | SubResourceSpineSkin

text \<open>
  A sub-resource object. Only a \<open>SubResourceSpineSkin\<close> has tracks; the field is empty
  and never read on a \<open>SubResourceSpinePlay\<close>.
\<close>

record sub_resource =
  sr_class :: sub_class
  base_resource_name :: string
  node_name :: string
  sr_i :: "nat option"
  resource_name :: string
  tracks :: "string list"

definition track_data :: "nat \<Rightarrow> string \<Rightarrow> string \<Rightarrow> string" where
  \<open>track_data k nn base =
     ln ind12 (''tracks/'' @ show_nat k @ ''/type = "value"'') @
     ln ind12 (''tracks/'' @ show_nat k @ ''/path = NodePath("'' @ nn @ '':playback/skin")'') @
     ln ind12 (''tracks/'' @ show_nat k @ ''/interp = 1'') @
     ln ind12 (''tracks/'' @ show_nat k @ ''/loop_wrap = true'') @
     ln ind12 (''tracks/'' @ show_nat k @ ''/imported = false'') @
     ln ind12 (''tracks/'' @ show_nat k @ ''/enabled = true'') @
     ln ind12 (''tracks/'' @ show_nat k @ ''/keys = {'') @
     ln ind12 ''"times": PoolRealArray( 0 ),'' @
     ln ind12 ''"transitions": PoolRealArray( 1 ),'' @
     ln ind12 ''"update": 1,'' @
     ln ind12 (''"values": [ "'' @ base @ ''" ]'') @
     ln ind12 ''}'' @
     ind12\<close>

definition add_track :: "string \<Rightarrow> sub_resource \<Rightarrow> sub_resource" where
  "add_track nn sr =
     sr\<lparr>tracks := tracks sr @ [dedent (track_data (length (tracks sr)) nn (base_resource_name sr))]\<rparr>"

definition new_SubResourceSpinePlay :: "string \<Rightarrow> string \<Rightarrow> sub_resource" where
  "new_SubResourceSpinePlay rn nn =
     \<lparr>sr_class = SubResourceSpinePlay, base_resource_name = rn, node_name = nn, sr_i = None,
      resource_name = nn @ ''__'' @ rn, tracks = []\<rparr>"

definition new_SubResourceSpineSkin :: "string \<Rightarrow> string \<Rightarrow> sub_resource" where
  "new_SubResourceSpineSkin rn nn =
     add_track nn
       \<lparr>sr_class = SubResourceSpineSkin, base_resource_name = rn, node_name = nn, sr_i = None,
        resource_name = nn @ ''__skin__'' @ rn, tracks = []\<rparr>"

definition new_sub_resource :: "sub_class \<Rightarrow> string \<Rightarrow> string \<Rightarrow> sub_resource" where
  "new_sub_resource cls rn nn =
     (case cls of
        SubResourceSpinePlay \<Rightarrow> new_SubResourceSpinePlay rn nn
      | SubResourceSpineSkin \<Rightarrow> new_SubResourceSpineSkin rn nn)"

definition SubResourceSpinePlay_str :: "sub_resource \<Rightarrow> string" where
  \<open>SubResourceSpinePlay_str sr =
     dedent
       (ln ind12 (''[sub_resource type="Animation" id='' @ format_int (sr_i sr) @ '']'') @
        [nl] @
        ln ind12 (''resource_name = "'' @ resource_name sr @ ''"'') @
        ln ind12 ''length = 1.0'' @
        ln ind12 ''loop = false'' @
        ln ind12 ''step = 0.1'' @
        ln ind12 ''tracks/0/type = "value"'' @
        ln ind12 (''tracks/0/path = NodePath("'' @ node_name sr @ '':playback/play")'') @
        ln ind12 ''tracks/0/interp = 1'' @
        ln ind12 ''tracks/0/loop_wrap = false'' @
        ln ind12 ''tracks/0/imported = false'' @
        ln ind12 ''tracks/0/enabled = true'' @
        ln ind12 ''tracks/0/keys = {'' @
        ln ind12 ''"times": PoolRealArray( 0, 1 ),'' @
        ln ind12 ''"transitions": PoolRealArray( 1, 1 ),'' @
        ln ind12 ''"update": 1,'' @
        ln ind12 (''"values": [ "'' @ base_resource_name sr @ ''", "[stop]" ]'') @
        ln ind12 ''}'' @
        [nl] @
        ind12)\<close>

definition SubResourceSpineSkin_str :: "sub_resource \<Rightarrow> string" where
  \<open>SubResourceSpineSkin_str sr =
     (let out =
        dedent
          (ln ind12 (''[sub_resource type="Animation" id='' @ format_int (sr_i sr) @ '']'') @
           [nl] @
           ln ind12 (''resource_name = "'' @ resource_name sr @ ''"'') @
           ln ind12 ''length = 0.01'' @
           ln ind12 ''loop = false'' @
           ln ind12 ''step = 0.1'' @
           ind12)
      in foldl (\<lambda>out track. out @ track) out (tracks sr) @ [nl])\<close>

definition SubResource_str :: "sub_resource \<Rightarrow> string" where
  "SubResource_str sr =
     (case sr_class sr of
        SubResourceSpinePlay \<Rightarrow> SubResourceSpinePlay_str sr
      | SubResourceSpineSkin \<Rightarrow> SubResourceSpineSkin_str sr)"

section \<open>Nodes\<close>

text \<open>
  The children of the root. A \<open>SpineNode\<close> has its name, parent, index and the number of
  its external resource; an \<open>ExtraNode\<close> its text; an \<open>AnimationPlayerNode\<close> its name,
  parent, index and its animations, each a number with a reference to a sub-resource.
\<close>

datatype child =
    SpineNode string string nat nat
  | ExtraNode string
  | AnimationPlayerNode string string nat "(nat \<times> nat) list"

text \<open>
  The root. The sub-resource objects are shared (the list of sub-resources, the sorted
  lists and the player's animations all refer to the same objects, which are changed in
  place), so they live in a store, \<open>heap\<close>, and are referred to by their position in
  it. \<open>animation_player\<close> refers to a child by its position in \<open>children\<close>, which only
  grows; it is \<open>None\<close> while the attribute does not exist.
\<close>

record main_node =
  mn_name :: string
  node_type :: string
  parent :: "string option"
  index :: "nat option"
  script :: "string option"
  load_steps :: "nat option"
  ext_resources :: "ext_resource list"
  heap :: "sub_resource list"
  sub_resources :: "nat list"
  children :: "child list"
  animation_player :: "nat option"

definition add_ext_resource :: "string \<Rightarrow> string \<Rightarrow> main_node \<Rightarrow> main_node" where
  "add_ext_resource path type m = m\<lparr>ext_resources := ext_resources m @ [ExtResource path type]\<rparr>"

definition MainNode :: "string \<Rightarrow> string \<Rightarrow> string option \<Rightarrow> main_node" where
  "MainNode name type scr =
     (let self = \<lparr>mn_name = name, node_type = type, parent = None, index = None, script = scr,
                  load_steps = None, ext_resources = [], heap = [], sub_resources = [],
                  children = [], animation_player = None\<rparr>
      in case scr of None \<Rightarrow> self | Some s \<Rightarrow> add_ext_resource s ''Script'' self)"

definition add_extra_file :: "env \<Rightarrow> string \<Rightarrow> main_node \<Rightarrow> error + main_node" where
  "add_extra_file ev fname m =
     (case extra_files ev fname (length (children m)) of
        Inl e \<Rightarrow> Inl e
      | Inr data \<Rightarrow> Inr (m\<lparr>children := children m @ [ExtraNode data]\<rparr>))"

definition add_sub_resource :: "sub_class \<Rightarrow> string \<Rightarrow> string \<Rightarrow> main_node \<Rightarrow> main_node" where
  "add_sub_resource cls rn nn m =
     m\<lparr>heap := heap m @ [new_sub_resource cls rn nn],
       sub_resources := sub_resources m @ [length (heap m)]\<rparr>"

definition spine_node_name :: "string \<Rightarrow> string" where
  "spine_node_name json_file =
     ''spine_'' @ py_replace ''.'' ''_'' (py_replace ''.json'' [] (basename json_file))"

definition add_spine_child :: "env \<Rightarrow> main_node \<Rightarrow> string \<Rightarrow> nat \<Rightarrow> error + main_node" where
  "add_spine_child ev m json_file idx =
     (case json_files ev json_file of
        NoFile \<Rightarrow> Inl (OSError json_file)
      | NotJson \<Rightarrow> Inl (JSONDecodeError json_file)
      | Json json_data \<Rightarrow>
          let m1 = add_ext_resource json_file ''SpineResource'' m;
              nn = spine_node_name json_file;
              child = SpineNode nn ''.'' idx (length (ext_resources m1));
              m2 = m1\<lparr>children := children m1 @ [child]\<rparr>
          in case subscript json_data ''animations'' of
               Inl e \<Rightarrow> Inl e
             | Inr anims \<Rightarrow>
                 (case keys anims of
                    Inl e \<Rightarrow> Inl e
                  | Inr animation_names \<Rightarrow>
                      let m3 = foldl (\<lambda>m an. add_sub_resource SubResourceSpinePlay an nn m)
                                 m2 animation_names
                      in case subscript json_data ''skins'' of
                           Inl e \<Rightarrow> Inl e
                         | Inr skins \<Rightarrow>
                             (case keys skins of
                                Inl e \<Rightarrow> Inl e
                              | Inr skin_names \<Rightarrow>
                                  Inr (foldl (\<lambda>m sn. add_sub_resource SubResourceSpineSkin sn nn m)
                                         m3 skin_names))))"

definition add_animation_player :: "main_node \<Rightarrow> error + main_node" where
  "add_animation_player m =
     (if parent m \<noteq> None then Inl AssertionError
      else let idx = length (children m)
           in Inr (m\<lparr>animation_player := Some idx,
                     children := children m @ [AnimationPlayerNode ''animation'' ''.'' idx []]\<rparr>))"

text \<open>\<open>sorted(self.sub_resources, key=operator.attrgetter('resource_name'))\<close>: stable.\<close>

definition sorted_sub_resources :: "main_node \<Rightarrow> nat list" where
  "sorted_sub_resources m = sort_key (\<lambda>a. resource_name (heap m ! a)) (sub_resources m)"

text \<open>The inner and the outer loop over the skins and the nodes that have skins.\<close>

fun node_names_loop :: "nat \<Rightarrow> string list \<Rightarrow> sub_resource list \<Rightarrow> sub_resource list" where
  "node_names_loop skin [] h = h"
| "node_names_loop skin (nn # nns) h =
     node_names_loop skin nns
       (if node_name (h ! skin) \<noteq> nn then h[skin := add_track nn (h ! skin)] else h)"

fun skins_loop :: "nat list \<Rightarrow> string list \<Rightarrow> sub_resource list \<Rightarrow> sub_resource list" where
  "skins_loop [] nns h = h"
| "skins_loop (skin # skins) nns h = skins_loop skins nns (node_names_loop skin nns h)"

text \<open>\<open>player.animations.append(a)\<close>; the player is the only child that has animations.\<close>

fun append_animation :: "nat \<times> nat \<Rightarrow> child \<Rightarrow> child" where
  "append_animation a (AnimationPlayerNode name par idx anims) =
     AnimationPlayerNode name par idx (anims @ [a])"
| "append_animation a c = c"

text \<open>
  The loop that ties the sub-resources to the player; \<open>k\<close> counts the rounds. Every
  sub-resource is a \<open>SubResourceAnimation\<close>, so the test in the loop always holds.
\<close>

fun animations_loop :: "nat \<Rightarrow> nat list \<Rightarrow> main_node \<Rightarrow> error + main_node" where
  "animations_loop k [] m = Inr m"
| "animations_loop k (a # as) m =
     (case animation_player m of
        None \<Rightarrow> Inl AttributeError
      | Some p \<Rightarrow>
          animations_loop (k + 1) as
            (m\<lparr>children := (children m)[p := append_animation (k + 1, a) (children m ! p)]\<rparr>))"

definition fix_spine_sub_resources :: "env \<Rightarrow> main_node \<Rightarrow> error + main_node" where
  "fix_spine_sub_resources ev m =
     (let spine_skins = filter (\<lambda>a. sr_class (heap m ! a) = SubResourceSpineSkin) (sub_resources m);
          nodes_with_skins = set_iter (slot ev) (map (\<lambda>a. node_name (heap m ! a)) spine_skins);
          m1 = m\<lparr>heap := skins_loop spine_skins nodes_with_skins (heap m)\<rparr>
      in animations_loop 0 (sorted_sub_resources m1) m1)"

definition set_load_steps :: "main_node \<Rightarrow> main_node" where
  "set_load_steps m =
     m\<lparr>load_steps := Some (length (ext_resources m) + length (sub_resources m) + 1)\<rparr>"

section \<open>Rendering\<close>

definition SpineNode_str :: "string \<Rightarrow> string \<Rightarrow> nat \<Rightarrow> nat \<Rightarrow> string" where
  \<open>SpineNode_str name par idx ext_i =
     dedent
       (ln ind12 (''[node name="'' @ name @ ''" type="Spine" parent="'' @ par @ ''" index="'' @
                  show_nat idx @ ''"]'') @
        [nl] @
        ln ind12 ''process_mode = 1'' @
        ln ind12 ''speed = 1.0'' @
        ln ind12 ''active = true'' @
        ln ind12 ''skip_frames = 0'' @
        ln ind12 ''debug_bones = false'' @
        ln ind12 ''flip_x = false'' @
        ln ind12 ''flip_y = false'' @
        ln ind12 ''fx_prefix = "fx/"'' @
        ln ind12 (''resource = ExtResource( '' @ show_nat ext_i @ '' )'') @
        ln ind12 ''playback/play = "[stop]"'' @
        ln ind12 ''playback/loop = true'' @
        ln ind12 ''playback/forward = true'' @
        ln ind12 ''playback/skin = "default"'' @
        ln ind12 ''debug/region = false'' @
        ln ind12 ''debug/mesh = false'' @
        ln ind12 ''debug/skinned_mesh = false'' @
        ln ind12 ''debug/bounding_box = false'' @
        ln ind12 ''_sections_unfolded = [ "playback", "Transform", "Visibility" ]'' @
        [nl] @
        ind12)\<close>

definition AnimationPlayerNode_str ::
  "sub_resource list \<Rightarrow> string \<Rightarrow> string \<Rightarrow> nat \<Rightarrow> (nat \<times> nat) list \<Rightarrow> string" where
  \<open>AnimationPlayerNode_str h name par idx anims =
     (let out0 =
        dedent
          (ln ind12 (''[node name="'' @ name @ ''" type="AnimationPlayer" parent="'' @ par @
                     ''" index="'' @ show_nat idx @ ''"]'') @
           [nl] @
           ind12);
          out1 =
        dedent
          (ln ind12 out0 @
           ln ind12 ''root_node = NodePath("..")'' @
           ln ind12 ''autoplay = ""'' @
           ln ind12 ''playback_process_mode = 1'' @
           ln ind12 ''playback_default_blend_time = 0.0'' @
           ln ind12 ''playback_speed = 1.0'' @
           ind12);
          out2 =
        foldl (\<lambda>out (i, sr). out @ ''anims/'' @ resource_name (h ! sr) @ '' = SubResource( '' @
                               show_nat i @ '' )'' @ [nl])
          out1 anims
      in out2 @ ''blend_times = [  ]'' @ [nl])\<close>

fun child_str :: "sub_resource list \<Rightarrow> child \<Rightarrow> string" where
  "child_str h (SpineNode name par idx ext_i) = SpineNode_str name par idx ext_i"
| "child_str h (ExtraNode data) = data"
| "child_str h (AnimationPlayerNode name par idx anims) = AnimationPlayerNode_str h name par idx anims"

text \<open>
  The two numbering loops of \<open>MainNode.__str__\<close>: each sets the \<open>i\<close> of an object and
  appends the object's text. \<open>k\<close> counts the rounds.
\<close>

fun ext_resources_loop ::
  "nat \<Rightarrow> ext_resource list \<Rightarrow> string \<Rightarrow> string \<times> ext_resource list" where
  "ext_resources_loop k [] out = (out, [])"
| "ext_resources_loop k (e # es) out =
     (let e' = e\<lparr>er_i := Some (k + 1)\<rparr>;
          (out', es') = ext_resources_loop (k + 1) es (out @ ExtResource_str e')
      in (out', e' # es'))"

fun sub_resources_loop ::
  "nat \<Rightarrow> nat list \<Rightarrow> sub_resource list \<Rightarrow> string \<Rightarrow> string \<times> sub_resource list" where
  "sub_resources_loop k [] h out = (out, h)"
| "sub_resources_loop k (a # as) h out =
     (let h' = h[a := (h ! a)\<lparr>sr_i := Some (k + 1)\<rparr>]
      in sub_resources_loop (k + 1) as h' (out @ SubResource_str (h' ! a)))"

text \<open>The root's own lines: the header of the node, then its properties.\<close>

definition root_node_header :: "main_node \<Rightarrow> string \<Rightarrow> string" where
  \<open>root_node_header m out =
     (if parent m = None then
        dedent
          (ln ind16 out @
           ln ind16 (''[node name="'' @ mn_name m @ ''" type="'' @ node_type m @ ''"]'') @
           [nl] @
           ind16)
      else out)\<close>

definition root_properties :: "main_node \<Rightarrow> string" where
  "root_properties m =
     (if script m \<noteq> None then ''script = ExtResource( 1 )'' @ [nl, nl] else [])"

definition children_str :: "main_node \<Rightarrow> string \<Rightarrow> string" where
  "children_str m out = foldl (\<lambda>out c. out @ child_str (heap m) c) out (children m)"

definition gd_scene_header :: "nat \<Rightarrow> string" where
  "gd_scene_header n = ''[gd_scene load_steps='' @ show_nat n @ '' format=2]''"

text \<open>
  \<open>MainNode.__str__\<close>: the text, and the root as the numbering leaves it.
\<close>

definition MainNode_str :: "main_node \<Rightarrow> string \<times> main_node" where
  "MainNode_str m =
     (let (out1, exts) = ext_resources_loop 0 (ext_resources m) [];
          out2 = (if out1 \<noteq> [] then out1 @ [nl] else out1);
          (out3, h) = sub_resources_loop 0 (sorted_sub_resources m) (heap m) out2;
          m' = m\<lparr>ext_resources := exts, heap := h\<rparr>;
          out4 = root_node_header m' out3;
          out5 = out4 @ root_properties m';
          out6 = children_str m' out5;
          out7 = (case load_steps m' of
                    None \<Rightarrow> out6
                  | Some n \<Rightarrow> gd_scene_header n @ [nl, nl] @ strip out6)
      in (out7, m'))"

section \<open>The build\<close>

fun spine_children_loop :: "env \<Rightarrow> nat \<Rightarrow> string list \<Rightarrow> main_node \<Rightarrow> error + main_node" where
  "spine_children_loop ev i [] m = Inr m"
| "spine_children_loop ev i (json_file # fs) m =
     (case add_spine_child ev m json_file i of
        Inl e \<Rightarrow> Inl e
      | Inr m' \<Rightarrow> spine_children_loop ev (i + 1) fs m')"

text \<open>\<open>if args['-e']\<close>: neither \<open>None\<close> nor the empty string.\<close>

definition build_tree :: "env \<Rightarrow> args \<Rightarrow> error + main_node" where
  "build_tree ev a =
     (case spine_children_loop ev 0 (arg_json a) (MainNode (arg_n a) (arg_t a) (arg_s a)) of
        Inl e \<Rightarrow> Inl e
      | Inr m1 \<Rightarrow>
          (case (case arg_e a of
                   None \<Rightarrow> Inr m1
                 | Some fname \<Rightarrow> if fname \<noteq> [] then add_extra_file ev fname m1 else Inr m1) of
             Inl e \<Rightarrow> Inl e
           | Inr m2 \<Rightarrow>
               (case add_animation_player m2 of
                  Inl e \<Rightarrow> Inl e
                | Inr m3 \<Rightarrow>
                    (case fix_spine_sub_resources ev m3 of
                       Inl e \<Rightarrow> Inl e
                     | Inr m4 \<Rightarrow> Inr (set_load_steps m4)))))"


section \<open>What a build holds, in terms of its input\<close>

text \<open>
  The names a file declares (\<open>None\<close> when the file, the key or the mapping is
  missing), the sub-resources a file gives rise to, and the shape of the tree that a
  build returns; the lemmas below show that \<open>build_tree\<close> computes exactly these.
\<close>

definition animation_names :: "env \<Rightarrow> string \<Rightarrow> string list option" where
  "animation_names ev p =
     (case json_files ev p of
        Json j \<Rightarrow>
          (case subscript j ''animations'' of
             Inr v \<Rightarrow> (case keys v of Inr ks \<Rightarrow> Some ks | Inl e \<Rightarrow> None)
           | Inl e \<Rightarrow> None)
      | _ \<Rightarrow> None)"

definition skin_names :: "env \<Rightarrow> string \<Rightarrow> string list option" where
  "skin_names ev p =
     (case json_files ev p of
        Json j \<Rightarrow>
          (case subscript j ''skins'' of
             Inr v \<Rightarrow> (case keys v of Inr ks \<Rightarrow> Some ks | Inl e \<Rightarrow> None)
           | Inl e \<Rightarrow> None)
      | _ \<Rightarrow> None)"

definition valid_file :: "env \<Rightarrow> string \<Rightarrow> bool" where
  "valid_file ev p = (animation_names ev p \<noteq> None \<and> skin_names ev p \<noteq> None)"

definition file_sub_resources :: "env \<Rightarrow> string \<Rightarrow> sub_resource list" where
  "file_sub_resources ev p =
     map (\<lambda>an. new_sub_resource SubResourceSpinePlay an (spine_node_name p))
       (case animation_names ev p of None \<Rightarrow> [] | Some ks \<Rightarrow> ks) @
     map (\<lambda>sn. new_sub_resource SubResourceSpineSkin sn (spine_node_name p))
       (case skin_names ev p of None \<Rightarrow> [] | Some ks \<Rightarrow> ks)"

fun spine_nodes :: "nat \<Rightarrow> nat \<Rightarrow> string list \<Rightarrow> child list" where
  "spine_nodes i e [] = []"
| "spine_nodes i e (p # ps) = SpineNode (spine_node_name p) ''.'' i (e + 1) # spine_nodes (i + 1) (e + 1) ps"

definition add_tracks :: "string list \<Rightarrow> sub_resource \<Rightarrow> sub_resource" where
  "add_tracks nns sr = foldl (\<lambda>sr nn. add_track nn sr) sr nns"

definition sync_tracks :: "string list \<Rightarrow> sub_resource \<Rightarrow> sub_resource" where
  "sync_tracks nns sr =
     (if sr_class sr = SubResourceSpineSkin
      then add_tracks (filter (\<lambda>nn. nn \<noteq> node_name sr) nns) sr else sr)"

definition script_resources :: "string option \<Rightarrow> ext_resource list" where
  "script_resources s = (case s of None \<Rightarrow> [] | Some p \<Rightarrow> [ExtResource p ''Script''])"

definition input_sub_resources :: "env \<Rightarrow> args \<Rightarrow> sub_resource list" where
  "input_sub_resources ev a = concat (map (file_sub_resources ev) (arg_json a))"

definition nodes_with_skins :: "env \<Rightarrow> args \<Rightarrow> string list" where
  "nodes_with_skins ev a =
     set_iter (slot ev)
       (map node_name (filter (\<lambda>sr. sr_class sr = SubResourceSpineSkin) (input_sub_resources ev a)))"

definition extra_children :: "env \<Rightarrow> args \<Rightarrow> child list" where
  "extra_children ev a =
     (case arg_e a of
        None \<Rightarrow> []
      | Some fname \<Rightarrow>
          if fname \<noteq> [] then
            (case extra_files ev fname (length (arg_json a)) of
               Inl e \<Rightarrow> []
             | Inr data \<Rightarrow> [ExtraNode data])
          else [])"

definition number_ext :: "nat \<Rightarrow> ext_resource list \<Rightarrow> ext_resource list" where
  "number_ext k es = map (\<lambda>(i, e). e\<lparr>er_i := Some (i + 1)\<rparr>) (enumerate k es)"

fun number_heap :: "nat \<Rightarrow> nat list \<Rightarrow> sub_resource list \<Rightarrow> sub_resource list" where
  "number_heap k [] h = h"
| "number_heap k (a # as) h = number_heap (k + 1) as (h[a := (h ! a)\<lparr>sr_i := Some (k + 1)\<rparr>])"

definition body_text :: "main_node \<Rightarrow> main_node \<Rightarrow> string" where
  "body_text m m' =
     children_str m'
       (root_node_header m'
          (let out1 = concat (map ExtResource_str (ext_resources m'))
           in (if out1 \<noteq> [] then out1 @ [nl] else out1) @
              concat (map (\<lambda>r. SubResource_str (heap m' ! r)) (sorted_sub_resources m))) @
        root_properties m')"

definition env1 :: env where
  "env1 =
     \<lparr>json_files = (\<lambda>p. if p = ''hero.json''
                         then Json (JObject [(''animations'', JObject [(''idle'', JOther), (''walk'', JOther)]),
                                             (''skins'', JObject [(''default'', JOther), (''blue'', JOther)])])
                         else NoFile),
      extra_files = (\<lambda>p n. Inl (OSError p)), project_godot = True, slot = (\<lambda>s. 0)\<rparr>"

definition args1 :: args where
  "args1 = \<lparr>arg_json = [''hero.json''], arg_t = ''KinematicBody2D'', arg_n = ''player'',
             arg_e = None, arg_s = None\<rparr>"


fun is_SpineNode :: "child \<Rightarrow> bool" where
  "is_SpineNode (SpineNode name par idx ext_i) = True"
| "is_SpineNode c = False"

definition tree1 :: main_node where
  "tree1 = projr (build_tree env1 args1)"


definition root0 :: main_node where
  "root0 = MainNode ''player'' ''Node2D'' None"

definition dots_to_underscores :: "string \<Rightarrow> string" where
  "dots_to_underscores s = map (\<lambda>c. if c = CHR ''.'' then CHR ''_'' else c) s"

definition env_dup :: env where
  "env_dup =
     \<lparr>json_files = (\<lambda>p. if p = ''x.json''
                         then Json (JObject [(''animations'', JObject [(''skin__a'', JOther)]),
                                             (''skins'', JObject [(''a'', JOther)])])
                         else NoFile),
      extra_files = (\<lambda>p n. Inl (OSError p)), project_godot = True, slot = (\<lambda>s. 0)\<rparr>"

definition args_dup :: args where
  "args_dup = \<lparr>arg_json = [''x.json''], arg_t = ''Node2D'', arg_n = ''x'',
                arg_e = None, arg_s = None\<rparr>"

definition tree_dup :: main_node where
  "tree_dup = projr (build_tree env_dup args_dup)"

definition declares_skin :: "env \<Rightarrow> string \<Rightarrow> bool" where
  "declares_skin ev p = (case skin_names ev p of None \<Rightarrow> False | Some ks \<Rightarrow> ks \<noteq> [])"

definition skin_files :: "env \<Rightarrow> args \<Rightarrow> string list" where
  "skin_files ev a = filter (declares_skin ev) (arg_json a)"

definition track_nodes :: "env \<Rightarrow> args \<Rightarrow> sub_resource \<Rightarrow> string list" where
  "track_nodes ev a sr = node_name sr # filter (\<lambda>nn. nn \<noteq> node_name sr) (nodes_with_skins ev a)"

definition env_same :: env where
  "env_same =
     \<lparr>json_files = (\<lambda>p. if p = ''a/x.json'' \<or> p = ''b/x.json''
                         then Json (JObject [(''animations'', JObject []),
                                             (''skins'', JObject [(''default'', JOther)])])
                         else NoFile),
      extra_files = (\<lambda>p n. Inl (OSError p)), project_godot = True, slot = (\<lambda>s. 0)\<rparr>"

definition args_same :: args where
  "args_same = \<lparr>arg_json = [''a/x.json'', ''b/x.json''], arg_t = ''Node2D'', arg_n = ''x'',
                 arg_e = None, arg_s = None\<rparr>"

definition tree_same :: main_node where
  "tree_same = projr (build_tree env_same args_same)"

definition env_two :: env where
  "env_two =
     \<lparr>json_files = (\<lambda>p. if p = ''front.json'' \<or> p = ''back.json''
                         then Json (JObject [(''animations'', JObject []),
                                             (''skins'', JObject [(''default'', JOther)])])
                         else NoFile),
      extra_files = (\<lambda>p n. Inl (OSError p)), project_godot = True, slot = (\<lambda>s. 0)\<rparr>"

definition args_two :: args where
  "args_two = \<lparr>arg_json = [''front.json'', ''back.json''], arg_t = ''Node2D'', arg_n = ''x'',
                arg_e = None, arg_s = None\<rparr>"

definition tree_two :: main_node where
  "tree_two = projr (build_tree env_two args_two)"




section \<open>The build, step by step\<close>

lemma foldl_add_sub_resource:
  "foldl (\<lambda>m x. add_sub_resource c x nn m) m xs =
     m\<lparr>heap := heap m @ map (\<lambda>x. new_sub_resource c x nn) xs,
       sub_resources := sub_resources m @ [length (heap m)..<length (heap m) + length xs]\<rparr>"
  by (induction xs rule: rev_induct) (simp_all add: add_sub_resource_def)

lemma upt_append_add: "[i..<i + j] @ [i + j..<i + j + k] = [i..<i + (j + k)]"
  using upt_add_eq_append[of i "i + j" k] by (simp add: add.assoc)

lemma upt_append_add2: "[i..<i + j] @ [i + j..<i + (j + k)] = [i..<i + (j + k)]"
  using upt_append_add[of i j k] by (simp add: add.assoc)

lemma add_spine_child_Inr:
  assumes "add_spine_child ev m p i = Inr m'"
  shows "valid_file ev p \<and>
     m' = m\<lparr>ext_resources := ext_resources m @ [ExtResource p ''SpineResource''],
            children := children m @ [SpineNode (spine_node_name p) ''.'' i (length (ext_resources m) + 1)],
            heap := heap m @ file_sub_resources ev p,
            sub_resources := sub_resources m @
              [length (heap m)..<length (heap m) + length (file_sub_resources ev p)]\<rparr>"
  using assms
  by (auto simp: add_spine_child_def valid_file_def animation_names_def skin_names_def
      file_sub_resources_def foldl_add_sub_resource add_ext_resource_def Let_def upt_append_add
      split: file_content.splits sum.splits)

lemma spine_children_loop_Inr:
  "spine_children_loop ev i fs m = Inr m' \<Longrightarrow>
     list_all (valid_file ev) fs \<and>
     m' = m\<lparr>ext_resources := ext_resources m @ map (\<lambda>p. ExtResource p ''SpineResource'') fs,
            children := children m @ spine_nodes i (length (ext_resources m)) fs,
            heap := heap m @ concat (map (file_sub_resources ev) fs),
            sub_resources := sub_resources m @
              [length (heap m)..<length (heap m) + length (concat (map (file_sub_resources ev) fs))]\<rparr>"
proof (induction fs arbitrary: i m)
  case Nil
  then show ?case by simp
next
  case (Cons p fs)
  from Cons.prems obtain m1 where
    m1: "add_spine_child ev m p i = Inr m1" and rest: "spine_children_loop ev (i + 1) fs m1 = Inr m'"
    by (auto split: sum.splits)
  note a = add_spine_child_Inr[OF m1]
  note b = Cons.IH[OF rest]
  from a have e: "ext_resources m1 = ext_resources m @ [ExtResource p ''SpineResource'']"
    and c: "children m1 = children m @ [SpineNode (spine_node_name p) ''.'' i (length (ext_resources m) + 1)]"
    and h: "heap m1 = heap m @ file_sub_resources ev p"
    and s: "sub_resources m1 = sub_resources m @
              [length (heap m)..<length (heap m) + length (file_sub_resources ev p)]"
    by (cases m, simp)+
  show ?case
    using a b by (cases m) (simp add: upt_append_add upt_append_add2)
qed

lemma node_name_add_track [simp]: "node_name (add_track nn sr) = node_name sr"
  and sr_class_add_track [simp]: "sr_class (add_track nn sr) = sr_class sr"
  and base_add_track [simp]: "base_resource_name (add_track nn sr) = base_resource_name sr"
  and resource_name_add_track [simp]: "resource_name (add_track nn sr) = resource_name sr"
  and sr_i_add_track [simp]: "sr_i (add_track nn sr) = sr_i sr"
  by (simp_all add: add_track_def)

lemma add_tracks_fields [simp]:
  "node_name (add_tracks nns sr) = node_name sr"
  "sr_class (add_tracks nns sr) = sr_class sr"
  "base_resource_name (add_tracks nns sr) = base_resource_name sr"
  "resource_name (add_tracks nns sr) = resource_name sr"
  "sr_i (add_tracks nns sr) = sr_i sr"
  by (induction nns arbitrary: sr) (simp_all add: add_tracks_def)

lemma add_tracks_Cons: "add_tracks (nn # nns) sr = add_tracks nns (add_track nn sr)"
  by (simp add: add_tracks_def)

lemma add_tracks_Nil [simp]: "add_tracks [] sr = sr"
  by (simp add: add_tracks_def)

lemma node_names_loop_eq:
  "a < length h \<Longrightarrow>
   node_names_loop a nns h =
     h[a := add_tracks (filter (\<lambda>nn. nn \<noteq> node_name (h ! a)) nns) (h ! a)]"
  by (induction nns arbitrary: h) (simp_all add: add_tracks_Cons)

lemma sync_tracks_fields [simp]:
  "node_name (sync_tracks nns sr) = node_name sr"
  "sr_class (sync_tracks nns sr) = sr_class sr"
  "base_resource_name (sync_tracks nns sr) = base_resource_name sr"
  "resource_name (sync_tracks nns sr) = resource_name sr"
  "sr_i (sync_tracks nns sr) = sr_i sr"
  by (simp_all add: sync_tracks_def)

lemma length_skins_loop [simp]:
  "set as \<subseteq> {..<length h} \<Longrightarrow> length (skins_loop as nns h) = length h"
  by (induction as arbitrary: h) (simp_all add: node_names_loop_eq)

lemma skins_loop_nth:
  "distinct as \<Longrightarrow> set as \<subseteq> {..<length h} \<Longrightarrow> j < length h \<Longrightarrow>
   skins_loop as nns h ! j =
     (if j \<in> set as then add_tracks (filter (\<lambda>nn. nn \<noteq> node_name (h ! j)) nns) (h ! j) else h ! j)"
proof (induction as arbitrary: h)
  case Nil
  then show ?case by simp
next
  case (Cons a as)
  let ?h = "node_names_loop a nns h"
  have eq: "?h = h[a := add_tracks (filter (\<lambda>nn. nn \<noteq> node_name (h ! a)) nns) (h ! a)]"
    using Cons.prems by (simp add: node_names_loop_eq)
  have "skins_loop as nns ?h ! j =
     (if j \<in> set as then add_tracks (filter (\<lambda>nn. nn \<noteq> node_name (?h ! j)) nns) (?h ! j) else ?h ! j)"
    using Cons.prems by (intro Cons.IH) (simp_all add: eq)
  then show ?case
    using Cons.prems by (auto simp: eq nth_list_update)
qed

lemma skins_loop_eq_map:
  assumes "sub_resources m = [0..<length (heap m)]"
  shows "skins_loop (filter (\<lambda>a. sr_class (heap m ! a) = SubResourceSpineSkin) (sub_resources m)) nns (heap m)
     = map (sync_tracks nns) (heap m)"
proof (rule nth_equalityI)
  let ?as = "filter (\<lambda>a. sr_class (heap m ! a) = SubResourceSpineSkin) (sub_resources m)"
  have d: "distinct ?as" and r: "set ?as \<subseteq> {..<length (heap m)}"
    using assms by auto
  show "length (skins_loop ?as nns (heap m)) = length (map (sync_tracks nns) (heap m))"
    using r by simp
  fix j assume "j < length (skins_loop ?as nns (heap m))"
  then have j: "j < length (heap m)" using r by simp
  have "j \<in> set ?as \<longleftrightarrow> sr_class (heap m ! j) = SubResourceSpineSkin"
    using j assms by auto
  then show "skins_loop ?as nns (heap m) ! j = map (sync_tracks nns) (heap m) ! j"
    using j skins_loop_nth[OF d r j, of nns] by (simp add: sync_tracks_def)
qed

lemma animations_loop_eq:
  "animation_player m = Some p \<Longrightarrow> p < length (children m) \<Longrightarrow>
   children m ! p = AnimationPlayerNode name par idx anims \<Longrightarrow>
   animations_loop k as m =
     Inr (m\<lparr>children := (children m)[p := AnimationPlayerNode name par idx
                                  (anims @ enumerate (k + 1) as)]\<rparr>)"
proof (induction as arbitrary: k m anims)
  case Nil
  then have "(children m)[p := AnimationPlayerNode name par idx anims] = children m"
    by (metis list_update_id)
  then show ?case by simp
next
  case (Cons a as)
  let ?m = "m\<lparr>children := (children m)[p := append_animation (k + 1, a) (children m ! p)]\<rparr>"
  have "animations_loop (k + 1) as ?m =
     Inr (?m\<lparr>children := (children ?m)[p := AnimationPlayerNode name par idx
                                  ((anims @ [(k + 1, a)]) @ enumerate (k + 1 + 1) as)]\<rparr>)"
    using Cons.prems by (intro Cons.IH) simp_all
  then show ?case
    using Cons.prems by simp
qed

lemma length_spine_nodes [simp]: "length (spine_nodes i e fs) = length fs"
  by (induction fs arbitrary: i e) simp_all

lemma map_filter_nth_upt:
  "map (\<lambda>a. f (h ! a)) (filter (\<lambda>a. P (h ! a)) [0..<length h]) = map f (filter P h)"
proof -
  have "map f (filter P (map ((!) h) [0..<length h])) =
        map (\<lambda>a. f (h ! a)) (filter (\<lambda>a. P (h ! a)) [0..<length h])"
    by (simp add: filter_map comp_def)
  then show ?thesis by (simp add: map_nth)
qed

lemma sorted_sub_resources_cong:
  "heap m = heap m' \<Longrightarrow> sub_resources m = sub_resources m' \<Longrightarrow>
   sorted_sub_resources m = sorted_sub_resources m'"
  by (simp add: sorted_sub_resources_def)

lemma fix_spine_sub_resources_Inr:
  assumes s: "sub_resources m = [0..<length (heap m)]"
    and p: "animation_player m = Some p" "p < length (children m)"
      "children m ! p = AnimationPlayerNode name par idx []"
  shows "fix_spine_sub_resources ev m =
     (let nns = set_iter (slot ev)
                  (map node_name (filter (\<lambda>sr. sr_class sr = SubResourceSpineSkin) (heap m)));
          m1 = m\<lparr>heap := map (sync_tracks nns) (heap m)\<rparr>
      in Inr (m1\<lparr>children := (children m)[p := AnimationPlayerNode name par idx
                                (enumerate 1 (sorted_sub_resources m1))]\<rparr>))"
proof -
  have n: "map (\<lambda>a. node_name (heap m ! a))
             (filter (\<lambda>a. sr_class (heap m ! a) = SubResourceSpineSkin) (sub_resources m)) =
           map node_name (filter (\<lambda>sr. sr_class sr = SubResourceSpineSkin) (heap m))"
    unfolding s by (rule map_filter_nth_upt)
  show ?thesis
    unfolding fix_spine_sub_resources_def Let_def n skins_loop_eq_map[OF s]
    using p by (subst animations_loop_eq[where name = name and par = par and idx = idx and anims = "[]"])
      simp_all
qed

lemma build_tree_Inr:
  assumes "build_tree ev a = Inr m"
  shows "list_all (valid_file ev) (arg_json a)"
    and "mn_name m = arg_n a" and "node_type m = arg_t a" and "parent m = None"
    and "script m = arg_s a"
    and "ext_resources m =
           script_resources (arg_s a) @ map (\<lambda>p. ExtResource p ''SpineResource'') (arg_json a)"
    and "heap m = map (sync_tracks (nodes_with_skins ev a)) (input_sub_resources ev a)"
    and "sub_resources m = [0..<length (heap m)]"
    and "children m =
           spine_nodes 0 (length (script_resources (arg_s a))) (arg_json a) @ extra_children ev a @
           [AnimationPlayerNode ''animation'' ''.'' (length (arg_json a) + length (extra_children ev a))
              (enumerate 1 (sorted_sub_resources m))]"
    and "load_steps m = Some (length (ext_resources m) + length (sub_resources m) + 1)"
    and "animation_player m = Some (length (arg_json a) + length (extra_children ev a))"
proof -
  let ?m0 = "MainNode (arg_n a) (arg_t a) (arg_s a)"
  from assms obtain m1 m2 m3 m4 where
    m1: "spine_children_loop ev 0 (arg_json a) ?m0 = Inr m1" and
    m2: "(case arg_e a of None \<Rightarrow> Inr m1
          | Some fname \<Rightarrow> if fname \<noteq> [] then add_extra_file ev fname m1 else Inr m1) = Inr m2" and
    m3: "add_animation_player m2 = Inr m3" and
    m4: "fix_spine_sub_resources ev m3 = Inr m4" and
    m: "m = set_load_steps m4"
    by (auto simp: build_tree_def split: sum.splits)
  have m0: "?m0 = \<lparr>mn_name = arg_n a, node_type = arg_t a, parent = None, index = None,
                  script = arg_s a, load_steps = None, ext_resources = script_resources (arg_s a),
                  heap = [], sub_resources = [], children = [], animation_player = None\<rparr>"
    by (simp add: MainNode_def script_resources_def add_ext_resource_def split: option.splits)
  note l = spine_children_loop_Inr[OF m1]
  from l show "list_all (valid_file ev) (arg_json a)" by simp
  from l have m1_eq: "m1 = \<lparr>mn_name = arg_n a, node_type = arg_t a, parent = None, index = None,
      script = arg_s a, load_steps = None,
      ext_resources = script_resources (arg_s a) @ map (\<lambda>p. ExtResource p ''SpineResource'') (arg_json a),
      heap = input_sub_resources ev a,
      sub_resources = [0..<length (input_sub_resources ev a)],
      children = spine_nodes 0 (length (script_resources (arg_s a))) (arg_json a),
      animation_player = None\<rparr>"
    by (simp add: m0 input_sub_resources_def)
  from m2 have m2_eq: "m2 = m1\<lparr>children := children m1 @ extra_children ev a\<rparr>"
    by (auto simp: extra_children_def add_extra_file_def m1_eq split: option.splits if_splits sum.splits)
  let ?idx = "length (arg_json a) + length (extra_children ev a)"
  from m3 have m3_eq: "m3 = m2\<lparr>animation_player := Some ?idx,
      children := children m2 @ [AnimationPlayerNode ''animation'' ''.'' ?idx []]\<rparr>"
    by (auto simp: add_animation_player_def m2_eq m1_eq Let_def split: if_splits)
  have f: "fix_spine_sub_resources ev m3 =
     (let nns = set_iter (slot ev)
                  (map node_name (filter (\<lambda>sr. sr_class sr = SubResourceSpineSkin) (heap m3)));
          m1 = m3\<lparr>heap := map (sync_tracks nns) (heap m3)\<rparr>
      in Inr (m1\<lparr>children := (children m3)[?idx := AnimationPlayerNode ''animation'' ''.'' ?idx
                                (enumerate 1 (sorted_sub_resources m1))]\<rparr>))"
    by (rule fix_spine_sub_resources_Inr) (simp_all add: m3_eq m2_eq m1_eq nth_append)
  let ?srt = "sort_key (\<lambda>r. resource_name (map (sync_tracks (nodes_with_skins ev a))
                                            (input_sub_resources ev a) ! r))
                [0..<length (input_sub_resources ev a)]"
  from f m4 have m4_eq: "m4 = m3\<lparr>heap := map (sync_tracks (nodes_with_skins ev a)) (input_sub_resources ev a),
      children := spine_nodes 0 (length (script_resources (arg_s a))) (arg_json a) @
        extra_children ev a @
        [AnimationPlayerNode ''animation'' ''.'' ?idx (enumerate 1 ?srt)]\<rparr>"
    by (auto simp: Let_def m3_eq m2_eq m1_eq nodes_with_skins_def list_update_append
        sorted_sub_resources_def)
  have sm: "sorted_sub_resources m = ?srt"
    by (simp add: m set_load_steps_def sorted_sub_resources_def m4_eq m3_eq m2_eq m1_eq)
  show "mn_name m = arg_n a" "node_type m = arg_t a" "parent m = None" "script m = arg_s a"
    by (simp_all add: m set_load_steps_def m4_eq m3_eq m2_eq m1_eq)
  show "ext_resources m =
           script_resources (arg_s a) @ map (\<lambda>p. ExtResource p ''SpineResource'') (arg_json a)"
    by (simp add: m set_load_steps_def m4_eq m3_eq m2_eq m1_eq)
  show "heap m = map (sync_tracks (nodes_with_skins ev a)) (input_sub_resources ev a)"
    by (simp add: m set_load_steps_def m4_eq)
  show "sub_resources m = [0..<length (heap m)]"
    by (simp add: m set_load_steps_def m4_eq m3_eq m2_eq m1_eq)
  show "children m =
           spine_nodes 0 (length (script_resources (arg_s a))) (arg_json a) @ extra_children ev a @
           [AnimationPlayerNode ''animation'' ''.'' (length (arg_json a) + length (extra_children ev a))
              (enumerate 1 (sorted_sub_resources m))]"
    unfolding sm by (simp add: m set_load_steps_def m4_eq)
  show "load_steps m = Some (length (ext_resources m) + length (sub_resources m) + 1)"
    by (simp add: m set_load_steps_def)
  show "animation_player m = Some (length (arg_json a) + length (extra_children ev a))"
    by (simp add: m set_load_steps_def m4_eq m3_eq)
qed

lemma ext_resources_loop_eq:
  "ext_resources_loop k es out = (out @ concat (map ExtResource_str (number_ext k es)), number_ext k es)"
  by (induction es arbitrary: k out) (simp_all add: number_ext_def Let_def)

lemma length_number_ext [simp]: "length (number_ext k es) = length es"
  by (simp add: number_ext_def)

lemma length_number_heap [simp]: "length (number_heap k as h) = length h"
  by (induction as arbitrary: k h) simp_all

lemma number_heap_notin: "j \<notin> set as \<Longrightarrow> number_heap k as h ! j = h ! j"
  by (induction as arbitrary: k h) (auto simp: nth_list_update)

lemma number_heap_nth:
  "distinct as \<Longrightarrow> set as \<subseteq> {..<length h} \<Longrightarrow> n < length as \<Longrightarrow>
   number_heap k as h ! (as ! n) = (h ! (as ! n))\<lparr>sr_i := Some (k + n + 1)\<rparr>"
proof (induction as arbitrary: k h n)
  case Nil
  then show ?case by simp
next
  case (Cons a as)
  show ?case
  proof (cases n)
    case 0
    then show ?thesis using Cons.prems by (simp add: number_heap_notin)
  next
    case (Suc n')
    let ?h = "h[a := (h ! a)\<lparr>sr_i := Some (k + 1)\<rparr>]"
    have ne: "as ! n' \<noteq> a" using Cons.prems Suc by auto
    have "number_heap (k + 1) as ?h ! (as ! n') = (?h ! (as ! n'))\<lparr>sr_i := Some (k + 1 + n' + 1)\<rparr>"
      using Cons.prems Suc by (intro Cons.IH) auto
    then show ?thesis using Suc ne by simp
  qed
qed

lemma sub_resources_loop_eq:
  "distinct as \<Longrightarrow> set as \<subseteq> {..<length h} \<Longrightarrow>
   sub_resources_loop k as h out =
     (out @ concat (map (\<lambda>r. SubResource_str (number_heap k as h ! r)) as), number_heap k as h)"
proof (induction as arbitrary: k h out)
  case Nil
  then show ?case by simp
next
  case (Cons a as)
  let ?h = "h[a := (h ! a)\<lparr>sr_i := Some (k + 1)\<rparr>]"
  have ih: "sub_resources_loop (k + 1) as ?h (out @ SubResource_str (?h ! a)) =
     ((out @ SubResource_str (?h ! a)) @
        concat (map (\<lambda>r. SubResource_str (number_heap (k + 1) as ?h ! r)) as),
      number_heap (k + 1) as ?h)"
    using Cons.prems by (intro Cons.IH) auto
  have "number_heap (k + 1) as ?h ! a = ?h ! a"
    using Cons.prems by (intro number_heap_notin) simp
  then show ?case using ih by (simp add: Let_def)
qed



lemma sorted_sub_resources_props:
  assumes "sub_resources m = [0..<length (heap m)]"
  shows "distinct (sorted_sub_resources m)" and "set (sorted_sub_resources m) = {..<length (heap m)}"
    and "length (sorted_sub_resources m) = length (heap m)"
  using assms by (auto simp: sorted_sub_resources_def)

lemma MainNode_str_eq:
  assumes "sub_resources m = [0..<length (heap m)]"
  shows "MainNode_str m =
     (let m' = m\<lparr>ext_resources := number_ext 0 (ext_resources m),
                  heap := number_heap 0 (sorted_sub_resources m) (heap m)\<rparr>
      in ((case load_steps m of
             None \<Rightarrow> body_text m m'
           | Some n \<Rightarrow> gd_scene_header n @ [nl, nl] @ strip (body_text m m')), m'))"
proof -
  note p = sorted_sub_resources_props[OF assms]
  have s: "sub_resources_loop 0 (sorted_sub_resources m) (heap m) out =
     (out @ concat (map (\<lambda>r. SubResource_str (number_heap 0 (sorted_sub_resources m) (heap m) ! r))
                      (sorted_sub_resources m)),
      number_heap 0 (sorted_sub_resources m) (heap m))" for out
    using p by (intro sub_resources_loop_eq) simp_all
  show ?thesis
    unfolding MainNode_str_def body_text_def Let_def ext_resources_loop_eq s prod.case
    by (auto split: option.splits)
qed

lemma build1: "build_tree env1 args1 = Inr tree1"
proof -
  have "\<not> isl (build_tree env1 args1)" by code_simp
  then show ?thesis unfolding tree1_def by simp
qed


lemma MainNode_str_build:
  assumes "build_tree ev a = Inr m" and "MainNode_str m = (out, m')"
  shows "m' = m\<lparr>ext_resources := number_ext 0 (ext_resources m),
                heap := number_heap 0 (sorted_sub_resources m) (heap m)\<rparr>"
    and "out = gd_scene_header (length (ext_resources m) + length (sub_resources m) + 1) @ [nl, nl] @
               strip (body_text m m')"
proof -
  note e = MainNode_str_eq[OF build_tree_Inr(8)[OF assms(1)]]
  from assms(2) show m': "m' = m\<lparr>ext_resources := number_ext 0 (ext_resources m),
                heap := number_heap 0 (sorted_sub_resources m) (heap m)\<rparr>"
    unfolding e Let_def by simp
  from assms(2) have "out = (case load_steps m of
             None \<Rightarrow> body_text m m'
           | Some n \<Rightarrow> gd_scene_header n @ [nl, nl] @ strip (body_text m m'))"
    unfolding e Let_def m' by simp
  then show "out = gd_scene_header (length (ext_resources m) + length (sub_resources m) + 1) @ [nl, nl] @
               strip (body_text m m')"
    by (simp add: build_tree_Inr(10)[OF assms(1)])
qed



lemma filter_is_SpineNode_spine_nodes [simp]:
  "filter is_SpineNode (spine_nodes i e fs) = spine_nodes i e fs"
  by (induction fs arbitrary: i e) simp_all

lemma extra_children_cases:
  "extra_children ev a = [] \<or> (\<exists>data. extra_children ev a = [ExtraNode data])"
proof (cases "arg_e a")
  case None
  then show ?thesis by (simp add: extra_children_def)
next
  case (Some fname)
  then show ?thesis
    by (cases "extra_files ev fname (length (arg_json a))") (simp_all add: extra_children_def)
qed

lemma filter_is_SpineNode_extra [simp]: "filter is_SpineNode (extra_children ev a) = []"
  using extra_children_cases[of ev a] by auto





text \<open>
  C8, as the code has it: attaching the animation player fails only on a node that has
  a parent (the assertion). On a root every call succeeds, a second one too: it appends
  one more player child, whose index is the number of children before the call, and the
  root then refers to the new player.
\<close>

theorem add_animation_player_twice:
  "(parent m \<noteq> None \<longrightarrow> add_animation_player m = Inl AssertionError) \<and>
   (parent m = None \<longrightarrow>
      (\<exists>m1. add_animation_player m = Inr m1 \<and>
        add_animation_player m1 =
          Inr (m\<lparr>animation_player := Some (length (children m) + 1),
                 children := children m @
                   [AnimationPlayerNode ''animation'' ''.'' (length (children m)) [],
                    AnimationPlayerNode ''animation'' ''.'' (length (children m) + 1) []]\<rparr>)))"
  by (simp add: add_animation_player_def Let_def)

theorem add_animation_player_twice_witness:
  "parent root0 = None \<and>
   (\<exists>m1. add_animation_player root0 = Inr m1 \<and>
      add_animation_player m1 =
        Inr (root0\<lparr>animation_player := Some 1,
                   children := [AnimationPlayerNode ''animation'' ''.'' 0 [],
                                AnimationPlayerNode ''animation'' ''.'' 1 []]\<rparr>))"
proof -
  have p: "parent root0 = None" and c: "children root0 = []"
    by (simp_all add: root0_def MainNode_def)
  show ?thesis
    using add_animation_player_twice[of root0] p c by simp
qed

theorem add_animation_player_twice_counterexample:
  "add_animation_player (projr (add_animation_player root0)) =
     Inr (root0\<lparr>animation_player := Some 1,
                children := [AnimationPlayerNode ''animation'' ''.'' 0 [],
                             AnimationPlayerNode ''animation'' ''.'' 1 []]\<rparr>)"
  by (simp add: add_animation_player_def root0_def MainNode_def Let_def)

lemma py_replace_dot: "py_replace ''.'' ''_'' s = dots_to_underscores s"
  by (induction s) (auto simp: dots_to_underscores_def)

lemma basename_append_slash:
  assumes "CHR ''/'' \<notin> set f"
  shows "basename (d @ ''/'' @ f) = f"
proof -
  have t: "takeWhile (\<lambda>c. c \<noteq> CHR ''/'') (rev f @ CHR ''/'' # rev d) = rev f"
    using assms by (subst takeWhile_append2) auto
  have r: "rev (d @ ''/'' @ f) = rev f @ CHR ''/'' # rev d"
    by simp
  show ?thesis
    unfolding basename_def r t by (rule rev_rev_ident)
qed

lemma basename_no_slash:
  assumes "CHR ''/'' \<notin> set f"
  shows "basename f = f"
proof -
  have t: "takeWhile (\<lambda>c. c \<noteq> CHR ''/'') (rev f) = rev f"
    using assms by (subst takeWhile_eq_all_conv) auto
  show ?thesis
    unfolding basename_def t by (rule rev_rev_ident)
qed

lemma prefix_json_append:
  "prefix ''.json'' (s @ ''.json'') \<Longrightarrow> s \<noteq> [] \<Longrightarrow> prefix ''.json'' s"
  by (auto simp: prefix_append Cons_eq_append_conv prefix_Cons)

lemma py_replace_json_suffix:
  "\<not> sublist ''.json'' s \<Longrightarrow> py_replace ''.json'' [] (s @ ''.json'') = s"
proof (induction s)
  case Nil
  then show ?case by simp
next
  case (Cons c cs)
  have "\<not> prefix ''.json'' (c # cs)"
    using Cons.prems by (meson prefix_imp_sublist)
  then have n: "\<not> prefix ''.json'' ((c # cs) @ ''.json'')"
    using prefix_json_append[of "c # cs"] by blast
  have "\<not> sublist ''.json'' cs"
    using Cons.prems by (meson sublist_Cons_right)
  then have ih: "py_replace ''.json'' [] (cs @ ''.json'') = cs"
    by (rule Cons.IH)
  have "py_replace ''.json'' [] ((c # cs) @ ''.json'') = c # py_replace ''.json'' [] (cs @ ''.json'')"
    using n by (simp only: append_Cons py_replace.simps if_False)
  then show ?case by (simp only: ih)
qed

text \<open>
  C9, as the code has it: the name of a source node is \<open>spine_\<close> followed by the
  basename of the path with every \<open>.json\<close> removed and then every dot replaced by an
  underscore. So for a file \<open>S.json\<close>, in any directory, where \<open>S\<close> has no slash and does
  not contain \<open>.json\<close>, the name is \<open>spine_\<close> followed by \<open>S\<close> with its dots replaced by
  underscores.
\<close>

theorem spine_node_name_stem:
  "spine_node_name p = ''spine_'' @ dots_to_underscores (py_replace ''.json'' [] (basename p)) \<and>
   (CHR ''/'' \<notin> set s \<and> \<not> sublist ''.json'' s \<longrightarrow>
      spine_node_name (s @ ''.json'') = ''spine_'' @ dots_to_underscores s \<and>
      spine_node_name (d @ ''/'' @ s @ ''.json'') = ''spine_'' @ dots_to_underscores s)"
proof -
  have "basename (d @ ''/'' @ s @ ''.json'') = s @ ''.json''" if "CHR ''/'' \<notin> set s"
    using that basename_append_slash[of "s @ ''.json''" d] by simp
  moreover have "basename (s @ ''.json'') = s @ ''.json''" if "CHR ''/'' \<notin> set s"
    using that by (simp add: basename_no_slash)
  ultimately show ?thesis
    by (simp add: spine_node_name_def py_replace_dot py_replace_json_suffix)
qed

theorem spine_node_name_stem_witness:
  "CHR ''/'' \<notin> set ''hero.v2'' \<and> \<not> sublist ''.json'' ''hero.v2'' \<and>
   spine_node_name ''hero.v2.json'' = ''spine_hero_v2'' \<and>
   spine_node_name ''art/hero.v2.json'' = ''spine_hero_v2''"
proof -
  have a: "CHR ''/'' \<notin> set ''hero.v2''" by simp
  have b: "\<not> sublist ''.json'' ''hero.v2''"
    by (simp add: sublist_Cons_right prefix_Cons)
  have c: "dots_to_underscores ''hero.v2'' = ''hero_v2''"
    by (simp add: dots_to_underscores_def)
  show ?thesis
    using spine_node_name_stem[THEN conjunct2, of "''hero.v2''" "''art''"] a b c by simp
qed

theorem spine_node_name_counterexample:
  "spine_node_name ''hero.json'' = ''spine_hero'' \<and>
   ''spine_'' @ dots_to_underscores (basename ''hero.json'') = ''spine_hero_json'' \<and>
   spine_node_name ''a.json.b.json'' = ''spine_a_b'' \<and>
   ''spine_'' @ dots_to_underscores ''a.json.b'' = ''spine_a_json_b''"
  by (simp add: spine_node_name_def basename_def dots_to_underscores_def)

lemma build_dup: "build_tree env_dup args_dup = Inr tree_dup"
proof -
  have "\<not> isl (build_tree env_dup args_dup)" by code_simp
  then show ?thesis unfolding tree_dup_def by simp
qed

lemma resource_name_update_sr_i:
  "resource_name (h[a := (h ! a)\<lparr>sr_i := x\<rparr>] ! r) = resource_name (h ! r)"
  by (cases "a = r"; cases "a < length h") (simp_all add: list_update_beyond)

lemma resource_name_number_heap [simp]:
  "resource_name (number_heap k as h ! r) = resource_name (h ! r)"
  by (induction as arbitrary: k h) (simp_all add: resource_name_update_sr_i)

lemma map_sr_i_number_heap:
  assumes "distinct as" and "set as \<subseteq> {..<length h}"
  shows "map (\<lambda>r. sr_i (number_heap k as h ! r)) as = map Some [k + 1..<k + 1 + length as]"
proof (rule nth_equalityI)
  show "length (map (\<lambda>r. sr_i (number_heap k as h ! r)) as) = length (map Some [k + 1..<k + 1 + length as])"
    by (simp del: upt_Suc)
  fix n assume "n < length (map (\<lambda>r. sr_i (number_heap k as h ! r)) as)"
  then have n: "n < length as" by simp
  show "map (\<lambda>r. sr_i (number_heap k as h ! r)) as ! n = map Some [k + 1..<k + 1 + length as] ! n"
    using n number_heap_nth[OF assms n, of k] by (simp del: upt_Suc)
qed

lemma distinct_map_nth:
  assumes "distinct (map f h)" and "distinct as" and "set as \<subseteq> {..<length h}"
  shows "distinct (map (\<lambda>r. f (h ! r)) as)"
proof -
  have "inj_on (\<lambda>r. f (h ! r)) (set as)"
  proof (rule inj_onI)
    fix x y assume x: "x \<in> set as" and y: "y \<in> set as" and e: "f (h ! x) = f (h ! y)"
    then have "x < length h" "y < length h" using assms(3) by auto
    then show "x = y"
      using e nth_eq_iff_index_eq[OF assms(1), of x y] by simp
  qed
  then show ?thesis using assms(2) by (simp add: distinct_map)
qed

text \<open>
  C1, as the code has it: at serialization every sub-resource, playback and skin-change
  alike, gets one id; the ids are 1, 2, ..., n along the list of all sub-resources sorted
  by display name; along that list the display names never descend, sub-resources of the
  same display name stand in the order they were created in, and the names ascend
  strictly when no two sub-resources share a display name.
\<close>

theorem sub_resource_ids_ascending:
  assumes "build_tree ev a = Inr m" and "MainNode_str m = (out, m')"
  shows "distinct (sorted_sub_resources m) \<and>
         set (sorted_sub_resources m) = set (sub_resources m) \<and>
         map (\<lambda>r. sr_i (heap m' ! r)) (sorted_sub_resources m) =
           map Some [1..<length (sub_resources m) + 1] \<and>
         sorted (map (\<lambda>r. resource_name (heap m' ! r)) (sorted_sub_resources m)) \<and>
         filter (\<lambda>r. resource_name (heap m ! r) = k) (sorted_sub_resources m) =
           filter (\<lambda>r. resource_name (heap m ! r) = k) (sub_resources m) \<and>
         (distinct (map resource_name (heap m)) \<longrightarrow>
            sorted_wrt (<) (map (\<lambda>r. resource_name (heap m' ! r)) (sorted_sub_resources m)))"
proof -
  note s = build_tree_Inr(8)[OF assms(1)]
  note p = sorted_sub_resources_props[OF s]
  have h: "heap m' = number_heap 0 (sorted_sub_resources m) (heap m)"
    by (simp add: MainNode_str_build(1)[OF assms])
  have sub: "set (sorted_sub_resources m) \<subseteq> {..<length (heap m)}"
    using p(2) by simp
  have names: "map (\<lambda>r. resource_name (heap m' ! r)) (sorted_sub_resources m) =
               map (\<lambda>r. resource_name (heap m ! r)) (sorted_sub_resources m)"
    unfolding h by simp
  have srt: "sorted (map (\<lambda>r. resource_name (heap m ! r)) (sorted_sub_resources m))"
    unfolding sorted_sub_resources_def by (rule sorted_sort_key)
  have ids: "map (\<lambda>r. sr_i (heap m' ! r)) (sorted_sub_resources m) =
             map Some [1..<length (sub_resources m) + 1]"
    unfolding h using map_sr_i_number_heap[OF p(1) sub, of 0] p(3) s by (simp del: upt_Suc)
  have stable: "filter (\<lambda>r. resource_name (heap m ! r) = k) (sorted_sub_resources m) =
           filter (\<lambda>r. resource_name (heap m ! r) = k) (sub_resources m)"
    unfolding sorted_sub_resources_def by (rule sort_key_stable)
  have strict: "sorted_wrt (<) (map (\<lambda>r. resource_name (heap m ! r)) (sorted_sub_resources m))"
    if "distinct (map resource_name (heap m))"
    using srt distinct_map_nth[OF that p(1) sub] by (simp add: strict_sorted_iff)
  have st: "set (sorted_sub_resources m) = set (sub_resources m)"
    by (simp add: sorted_sub_resources_def)
  show ?thesis
    unfolding names using p(1) st ids srt stable strict by blast
qed

theorem sub_resource_ids_ascending_witness:
  "build_tree env1 args1 = Inr tree1 \<and>
   distinct (map resource_name (heap tree1)) \<and>
   sorted_sub_resources tree1 = [0, 3, 2, 1] \<and>
   length (sub_resources tree1) = 4 \<and>
   map (\<lambda>r. sr_i (heap (snd (MainNode_str tree1)) ! r)) (sorted_sub_resources tree1) =
     map Some [1..<length (sub_resources tree1) + 1] \<and>
   sorted_wrt (<) (map (\<lambda>r. resource_name (heap (snd (MainNode_str tree1)) ! r))
                     (sorted_sub_resources tree1))"
proof -
  have d: "distinct (map resource_name (heap tree1))"
    unfolding tree1_def by code_simp
  have o: "sorted_sub_resources tree1 = [0, 3, 2, 1]"
    unfolding tree1_def by code_simp
  have l: "length (sub_resources tree1) = 4"
    unfolding tree1_def by code_simp
  note t = sub_resource_ids_ascending[OF build1 prod.collapse[symmetric], of "[]"]
  from t have ids: "map (\<lambda>r. sr_i (heap (snd (MainNode_str tree1)) ! r)) (sorted_sub_resources tree1) =
     map Some [1..<length (sub_resources tree1) + 1]"
    by blast
  from t d have strict: "sorted_wrt (<) (map (\<lambda>r. resource_name (heap (snd (MainNode_str tree1)) ! r))
                     (sorted_sub_resources tree1))"
    by blast
  show ?thesis
    using build1 d o l ids strict by blast
qed

theorem sub_resource_ids_counterexample:
  "resource_name (heap (snd (MainNode_str tree_dup)) ! 0) = ''spine_x__skin__a'' \<and>
   resource_name (heap (snd (MainNode_str tree_dup)) ! 1) = ''spine_x__skin__a'' \<and>
   sr_i (heap (snd (MainNode_str tree_dup)) ! 0) = Some 1 \<and>
   sr_i (heap (snd (MainNode_str tree_dup)) ! 1) = Some 2 \<and>
   \<not> sorted_wrt (<) (map (\<lambda>r. resource_name (heap (snd (MainNode_str tree_dup)) ! r))
                        (sorted_sub_resources tree_dup))"
proof -
  have o: "sorted_sub_resources tree_dup = [0, 1]"
    unfolding tree_dup_def by code_simp
  have l: "length (heap tree_dup) = 2"
    unfolding tree_dup_def by code_simp
  have n0: "resource_name (heap tree_dup ! 0) = ''spine_x__skin__a''"
    unfolding tree_dup_def by code_simp
  have n1: "resource_name (heap tree_dup ! 1) = ''spine_x__skin__a''"
    unfolding tree_dup_def by code_simp
  have h: "heap (snd (MainNode_str tree_dup)) = number_heap 0 [0, 1] (heap tree_dup)"
    using MainNode_str_build(1)[OF build_dup prod.collapse[symmetric]] by (simp add: o)
  have a: "resource_name (heap (snd (MainNode_str tree_dup)) ! 0) = ''spine_x__skin__a''"
    and b: "resource_name (heap (snd (MainNode_str tree_dup)) ! 1) = ''spine_x__skin__a''"
    unfolding h by (simp_all only: resource_name_number_heap n0 n1)
  have c: "sr_i (heap (snd (MainNode_str tree_dup)) ! 0) = Some 1"
    and d: "sr_i (heap (snd (MainNode_str tree_dup)) ! 1) = Some 2"
    unfolding h using l by simp_all
  show ?thesis
    unfolding o using a b c d by simp
qed




lemma build_same: "build_tree env_same args_same = Inr tree_same"
proof -
  have "\<not> isl (build_tree env_same args_same)" by code_simp
  then show ?thesis unfolding tree_same_def by simp
qed

lemma build_two: "build_tree env_two args_two = Inr tree_two"
proof -
  have "\<not> isl (build_tree env_two args_two)" by code_simp
  then show ?thesis unfolding tree_two_def by simp
qed

lemma tracks_add_tracks:
  "tracks (add_tracks nns sr) =
     tracks sr @ map (\<lambda>(k, nn). dedent (track_data k nn (base_resource_name sr)))
                   (enumerate (length (tracks sr)) nns)"
proof (induction nns arbitrary: sr)
  case Nil
  then show ?case by simp
next
  case (Cons nn nns)
  have "tracks (add_track nn sr) = tracks sr @ [dedent (track_data (length (tracks sr)) nn (base_resource_name sr))]"
    by (simp add: add_track_def)
  then show ?case
    by (simp add: add_tracks_Cons Cons.IH)
qed

lemma skin_in_file:
  assumes "sr \<in> set (file_sub_resources ev p)" and "sr_class sr = SubResourceSpineSkin"
  shows "tracks sr = [dedent (track_data 0 (node_name sr) (base_resource_name sr))] \<and>
         node_name sr = spine_node_name p \<and> declares_skin ev p"
proof -
  define B where "B = (case skin_names ev p of None \<Rightarrow> [] | Some ks \<Rightarrow> ks)"
  from assms have "sr \<in> set (map (\<lambda>sn. new_sub_resource SubResourceSpineSkin sn (spine_node_name p)) B)"
    by (auto simp: file_sub_resources_def B_def new_sub_resource_def new_SubResourceSpinePlay_def)
  then obtain sn where sn: "sn \<in> set B"
    and sr: "sr = new_sub_resource SubResourceSpineSkin sn (spine_node_name p)"
    by auto
  have "declares_skin ev p"
    using sn by (cases "skin_names ev p") (auto simp: declares_skin_def B_def)
  then show ?thesis
    by (simp add: sr new_sub_resource_def new_SubResourceSpineSkin_def add_track_def)
qed

lemma skin_names_of_file:
  "set (map node_name (filter (\<lambda>sr. sr_class sr = SubResourceSpineSkin) (file_sub_resources ev p))) =
     (if declares_skin ev p then {spine_node_name p} else {})"
proof (cases "skin_names ev p")
  case None
  then show ?thesis
    by (auto simp: file_sub_resources_def declares_skin_def new_sub_resource_def
        new_SubResourceSpinePlay_def)
next
  case (Some ks)
  have "filter (\<lambda>sr. sr_class sr = SubResourceSpineSkin) (file_sub_resources ev p) =
        map (\<lambda>sn. new_sub_resource SubResourceSpineSkin sn (spine_node_name p)) ks"
    by (simp add: file_sub_resources_def Some filter_map comp_def new_sub_resource_def
        new_SubResourceSpinePlay_def new_SubResourceSpineSkin_def add_track_def)
  then show ?thesis
    by (cases ks) (auto simp: declares_skin_def Some new_sub_resource_def
        new_SubResourceSpineSkin_def add_track_def)
qed

lemma set_nodes_with_skins:
  "set (nodes_with_skins ev a) = set (map spine_node_name (skin_files ev a))"
proof -
  have "set (map node_name (filter (\<lambda>sr. sr_class sr = SubResourceSpineSkin)
               (concat (map (file_sub_resources ev) fs)))) =
        set (map spine_node_name (filter (declares_skin ev) fs))" for fs
  proof (induction fs)
    case Nil
    then show ?case by simp
  next
    case (Cons p fs)
    show ?case
      using Cons.IH skin_names_of_file[of ev p] by auto
  qed
  then show ?thesis
    by (simp add: nodes_with_skins_def set_iter_def input_sub_resources_def skin_files_def)
qed

lemma distinct_nodes_with_skins: "distinct (nodes_with_skins ev a)"
  by (simp add: nodes_with_skins_def set_iter_def)

text \<open>
  C3, as the code has it: after the skin-track synchronization every skin-change
  animation carries exactly one track for each distinct name among the source nodes that
  declare at least one skin: first its own node, then the others in the order the set of
  names is iterated in, none twice. So the number of its tracks is the number of distinct
  such names, which is the number of such source nodes whenever their names differ.
\<close>

theorem skin_tracks_per_node_name:
  assumes "build_tree ev a = Inr m" and "r \<in> set (sub_resources m)"
    and "sr_class (heap m ! r) = SubResourceSpineSkin"
  shows "tracks (heap m ! r) =
           map (\<lambda>(k, nn). dedent (track_data k nn (base_resource_name (heap m ! r))))
             (enumerate 0 (track_nodes ev a (heap m ! r))) \<and>
         distinct (track_nodes ev a (heap m ! r)) \<and>
         set (track_nodes ev a (heap m ! r)) = set (map spine_node_name (skin_files ev a)) \<and>
         length (tracks (heap m ! r)) = card (set (map spine_node_name (skin_files ev a))) \<and>
         (distinct (map spine_node_name (skin_files ev a)) \<longrightarrow>
            length (tracks (heap m ! r)) = length (skin_files ev a))"
proof -
  let ?nws = "nodes_with_skins ev a"
  let ?inp = "input_sub_resources ev a"
  let ?sr0 = "?inp ! r"
  let ?nn = "node_name ?sr0"
  have h: "heap m = map (sync_tracks ?nws) ?inp"
    by (rule build_tree_Inr(7)[OF assms(1)])
  have r: "r < length ?inp"
    using assms(2) build_tree_Inr(8)[OF assms(1)] by (simp add: h)
  have hr: "heap m ! r = sync_tracks ?nws ?sr0"
    using r by (simp add: h)
  have cls: "sr_class ?sr0 = SubResourceSpineSkin"
    using assms(3) by (simp add: hr)
  have "?sr0 \<in> set ?inp"
    using r by simp
  then obtain p where p: "p \<in> set (arg_json a)" and f: "?sr0 \<in> set (file_sub_resources ev p)"
    by (auto simp: input_sub_resources_def)
  note k = skin_in_file[OF f cls]
  have mem: "?nn \<in> set ?nws"
    using k p by (simp add: set_nodes_with_skins skin_files_def)
  have tn: "track_nodes ev a (heap m ! r) = ?nn # filter (\<lambda>nn. nn \<noteq> ?nn) ?nws"
    by (simp add: track_nodes_def hr)
  have t: "tracks (heap m ! r) =
           map (\<lambda>(k, nn). dedent (track_data k nn (base_resource_name (heap m ! r))))
             (enumerate 0 (track_nodes ev a (heap m ! r)))"
    unfolding tn unfolding hr using k cls
    by (simp add: sync_tracks_def tracks_add_tracks)
  have d: "distinct (track_nodes ev a (heap m ! r))"
    unfolding tn using distinct_nodes_with_skins[of ev a] by simp
  have s: "set (track_nodes ev a (heap m ! r)) = set (map spine_node_name (skin_files ev a))"
    unfolding tn using mem set_nodes_with_skins[of ev a] by auto
  have "length (tracks (heap m ! r)) = length (track_nodes ev a (heap m ! r))"
    by (subst t) simp
  also have "\<dots> = card (set (track_nodes ev a (heap m ! r)))"
    using d by (simp add: distinct_card)
  finally have c: "length (tracks (heap m ! r)) = card (set (map spine_node_name (skin_files ev a)))"
    unfolding s .
  have e: "length (tracks (heap m ! r)) = length (skin_files ev a)"
    if "distinct (map spine_node_name (skin_files ev a))"
    using c distinct_card[OF that] by simp
  show ?thesis
    using t d s c e by blast
qed

theorem skin_tracks_per_node_name_witness:
  "build_tree env_two args_two = Inr tree_two \<and>
   0 \<in> set (sub_resources tree_two) \<and>
   sr_class (heap tree_two ! 0) = SubResourceSpineSkin \<and>
   map spine_node_name (skin_files env_two args_two) = [''spine_front'', ''spine_back''] \<and>
   length (tracks (heap tree_two ! 0)) = length (skin_files env_two args_two) \<and>
   length (skin_files env_two args_two) = 2"
proof -
  have r: "0 \<in> set (sub_resources tree_two)"
    unfolding tree_two_def by code_simp
  have c: "sr_class (heap tree_two ! 0) = SubResourceSpineSkin"
    unfolding tree_two_def by code_simp
  have n: "map spine_node_name (skin_files env_two args_two) = [''spine_front'', ''spine_back'']"
    by code_simp
  have l: "length (skin_files env_two args_two) = 2"
    by code_simp
  have d: "distinct (map spine_node_name (skin_files env_two args_two))"
    unfolding n by simp
  from skin_tracks_per_node_name[OF build_two r c] d
  have "length (tracks (heap tree_two ! 0)) = length (skin_files env_two args_two)"
    by blast
  then show ?thesis
    using build_two r c n l by blast
qed

theorem skin_tracks_counterexample:
  "build_tree env_same args_same = Inr tree_same \<and>
   skin_files env_same args_same = [''a/x.json'', ''b/x.json''] \<and>
   sr_class (heap tree_same ! 0) = SubResourceSpineSkin \<and>
   sr_class (heap tree_same ! 1) = SubResourceSpineSkin \<and>
   length (tracks (heap tree_same ! 0)) = 1 \<and>
   length (tracks (heap tree_same ! 1)) = 1"
proof -
  have f: "skin_files env_same args_same = [''a/x.json'', ''b/x.json'']"
    by code_simp
  have c0: "sr_class (heap tree_same ! 0) = SubResourceSpineSkin"
    and c1: "sr_class (heap tree_same ! 1) = SubResourceSpineSkin"
    unfolding tree_same_def by code_simp+
  have l0: "length (tracks (heap tree_same ! 0)) = 1"
    and l1: "length (tracks (heap tree_same ! 1)) = 1"
    unfolding tree_same_def by code_simp+
  show ?thesis
    using build_same f c0 c1 l0 l1 by blast
qed











lemma split_lines_not_Nil [simp]: "split_lines t \<noteq> []"
  by (induction t) (auto simp: neq_Nil_conv elim: cons_first.elims)







lemma isspace_facts [simp]:
  "\<not> isspace (CHR ''s'')" "\<not> isspace (CHR '']'')" "isspace nl"
  by (simp_all add: isspace_def nl_def)






end
